theory Spec2Isabelle
  imports Complex_Main
begin

section \<open>Structural analysis of cat-tree designs (structuralAnalysis.js)\<close>

text \<open>
  The module \<open>StructuralAnalysis\<close> is embedded function by function. JavaScript numbers
  are modelled as exact real numbers (\<open>real\<close>): the arithmetic of the source is kept, the
  rounding error of IEEE doubles is not. The one place of the source where a division can
  produce a non-finite value (\<open>node.totalLoad / maxCapacity\<close> with a zero capacity) is
  modelled with the explicit values \<open>PosInf\<close>, \<open>NegInf\<close> and \<open>NaN\<close>.
\<close>

subsection \<open>Numbers\<close>

text \<open>\<open>Math.round\<close>: the nearest integer, a tie going towards plus infinity.\<close>

definition Math_round :: "real \<Rightarrow> real" where
  "Math_round v = of_int \<lfloor>v + 1 / 2\<rfloor>"

text \<open>\<open>Math.PI\<close>, the double nearest to pi, as the rational number it denotes.\<close>

definition Math_PI :: real where
  "Math_PI = 884279719003555 / 281474976710656"

datatype jsnum = Fin real | PosInf | NegInf | NaN

text \<open>
  Division of two finite numbers as JavaScript does it; a zero divisor is taken as
  positive zero.
\<close>

definition js_div :: "real \<Rightarrow> real \<Rightarrow> jsnum" where
  "js_div a b =
     (if b \<noteq> 0 then Fin (a / b)
      else if a > 0 then PosInf
      else if a < 0 then NegInf
      else NaN)"

text \<open>\<open>Math.min(1, v)\<close>.\<close>

fun Math_min1 :: "jsnum \<Rightarrow> jsnum" where
  "Math_min1 (Fin v) = Fin (min 1 v)"
| "Math_min1 PosInf = Fin 1"
| "Math_min1 NegInf = NegInf"
| "Math_min1 NaN = NaN"

subsection \<open>Material table and connection kinds\<close>

record material_props =
  baseCapacity :: real
  tensileStrength :: real
  shearStrength :: real
  density :: real
  jointEfficiency :: real

definition wood :: material_props where
  "wood = \<lparr>baseCapacity = 150, tensileStrength = 100, shearStrength = 80,
            density = 25 / 1000, jointEfficiency = 9 / 10\<rparr>"

definition fabric :: material_props where
  "fabric = \<lparr>baseCapacity = 30, tensileStrength = 20, shearStrength = 10,
              density = 5 / 1000, jointEfficiency = 3 / 10\<rparr>"

definition sisal :: material_props where
  "sisal = \<lparr>baseCapacity = 60, tensileStrength = 50, shearStrength = 30,
             density = 15 / 1000, jointEfficiency = 5 / 10\<rparr>"

definition carpet :: material_props where
  "carpet = \<lparr>baseCapacity = 40, tensileStrength = 25, shearStrength = 15,
              density = 8 / 1000, jointEfficiency = 4 / 10\<rparr>"

definition cushion :: material_props where
  "cushion = \<lparr>baseCapacity = 20, tensileStrength = 10, shearStrength = 5,
               density = 3 / 1000, jointEfficiency = 2 / 10\<rparr>"

text \<open>
  \<open>StructuralAnalysis.materialStrength[piece.material] || materialStrength.wood\<close>:
  a key that is not in the table, or an absent material, falls back to wood. (A material
  string that names a property inherited from \<open>Object.prototype\<close> is not modelled.)
\<close>

definition materialStrength :: "string \<Rightarrow> material_props" where
  "materialStrength m =
     (if m = ''wood'' then wood
      else if m = ''fabric'' then fabric
      else if m = ''sisal'' then sisal
      else if m = ''carpet'' then carpet
      else if m = ''cushion'' then cushion
      else wood)"

datatype connection_kind =
  none | screws | brackets_light | brackets_heavy | bolts | glue_and_screws | metal_plate

subsection \<open>Pieces and their weight\<close>

text \<open>
  The fields of a piece that the module reads. The fields \<open>id\<close>, \<open>name\<close>, \<open>x\<close>, \<open>y\<close> and
  \<open>z\<close> of the source are \<open>pid\<close>, \<open>pname\<close>, \<open>px\<close>, \<open>py\<close> and \<open>pz\<close> here; \<open>variantId\<close> may
  be absent.
\<close>

record piece =
  pid :: string
  pname :: string
  material :: string
  shape :: string
  hollow :: bool
  variantId :: "string option"
  px :: real
  py :: real
  pz :: real
  width :: real
  height :: real
  depth :: real

text \<open>The volume computed in the first half of \<open>calculatePieceWeight\<close>.\<close>

definition wallThickness :: real where
  "wallThickness = 3 / 4"

definition outerVolume :: "piece \<Rightarrow> real" where
  "outerVolume p = width p * height p * depth p"

definition innerVolume :: "piece \<Rightarrow> real" where
  "innerVolume p =
     max 0 ((width p - 2 * wallThickness) *
            (height p - 2 * wallThickness) *
            (depth p - 2 * wallThickness))"

definition pieceVolume :: "piece \<Rightarrow> real" where
  "pieceVolume p =
     (if hollow p then outerVolume p - innerVolume p
      else if shape p = ''cylinder'' then Math_PI * (width p / 2)\<^sup>2 * height p
      else width p * height p * depth p)"

definition calculatePieceWeight :: "piece \<Rightarrow> real" where
  "calculatePieceWeight p =
     Math_round (pieceVolume p * density (materialStrength (material p)) * 10) / 10"

definition calculateTotalWeight :: "piece list \<Rightarrow> real" where
  "calculateTotalWeight pieces = foldl (\<lambda>tot p. tot + calculatePieceWeight p) 0 pieces"

subsection \<open>Connection suggestion\<close>

definition suggestConnection :: "real \<Rightarrow> piece \<Rightarrow> connection_kind" where
  "suggestConnection overlapArea upperPiece =
     (let weight = calculatePieceWeight upperPiece in
      if overlapArea < 4 then (if weight > 20 then metal_plate else brackets_heavy)
      else if overlapArea < 16 then (if weight > 15 then brackets_heavy else brackets_light)
      else (if weight > 10 then glue_and_screws else screws))"

subsection \<open>Support graph\<close>

record connection =
  cx :: real
  cy :: real
  cz :: real
  area :: real
  upperPieceId :: string
  lowerPieceId :: string
  suggestedConnection :: connection_kind

record node =
  npiece :: piece
  supporting :: "string list"
  supportedBy :: "string list"
  connections :: "connection list"
  totalLoad :: real
  stressLevel :: jsnum

text \<open>
  The support map is a JavaScript object keyed by piece id. The ids of this application are
  strings such as \<open>platform-1700000000000\<close>, so \<open>Object.values\<close> lists the nodes in the
  order in which their keys were first inserted: the map is an association list in that
  order. Assigning to a key that exists replaces the value in place.
\<close>

type_synonym supportMap = "(string \<times> node) list"

fun sm_put :: "string \<Rightarrow> 'a \<Rightarrow> (string \<times> 'a) list \<Rightarrow> (string \<times> 'a) list" where
  "sm_put k v [] = [(k, v)]"
| "sm_put k v ((k', v') # rest) =
     (if k' = k then (k, v) # rest else (k', v') # sm_put k v rest)"

text \<open>
  \<open>supportMap[k].field.push(...)\<close>: the node stored under \<open>k\<close> is changed in place.
  Inside \<open>analyzeSupportStructure\<close> every key that is looked up was inserted by the first
  loop (lemma \<open>keys_buildGraph\<close> below), so the lookup cannot miss there.
\<close>

fun sm_modify :: "string \<Rightarrow> (node \<Rightarrow> node) \<Rightarrow> supportMap \<Rightarrow> supportMap" where
  "sm_modify k f [] = []"
| "sm_modify k f ((k', v') # rest) =
     (if k' = k then (k', f v') # rest else (k', v') # sm_modify k f rest)"

definition calculateOverlap :: "real \<Rightarrow> real \<Rightarrow> real \<Rightarrow> real \<Rightarrow> real" where
  "calculateOverlap min1 max1 min2 max2 = max 0 (min max1 max2 - max min1 min2)"

definition overlapX :: "piece \<Rightarrow> piece \<Rightarrow> real" where
  "overlapX lowerPiece upperPiece =
     calculateOverlap (px lowerPiece - width lowerPiece / 2) (px lowerPiece + width lowerPiece / 2)
                      (px upperPiece - width upperPiece / 2) (px upperPiece + width upperPiece / 2)"

definition overlapZ :: "piece \<Rightarrow> piece \<Rightarrow> real" where
  "overlapZ lowerPiece upperPiece =
     calculateOverlap (pz lowerPiece - depth lowerPiece / 2) (pz lowerPiece + depth lowerPiece / 2)
                      (pz upperPiece - depth upperPiece / 2) (pz upperPiece + depth upperPiece / 2)"

definition isSupporting :: "piece \<Rightarrow> piece \<Rightarrow> bool" where
  "isSupporting lowerPiece upperPiece =
     (let lowerTop = py lowerPiece + height lowerPiece;
          upperBottom = py upperPiece
      in if \<bar>lowerTop - upperBottom\<bar> > 1 then False
         else overlapX lowerPiece upperPiece \<ge> 2 \<and> overlapZ lowerPiece upperPiece \<ge> 2)"

definition calculateConnectionPoint :: "piece \<Rightarrow> piece \<Rightarrow> connection" where
  "calculateConnectionPoint lowerPiece upperPiece =
     (let overlapCenterX =
            (max (px lowerPiece - width lowerPiece / 2) (px upperPiece - width upperPiece / 2) +
             min (px lowerPiece + width lowerPiece / 2) (px upperPiece + width upperPiece / 2)) / 2;
          overlapCenterZ =
            (max (pz lowerPiece - depth lowerPiece / 2) (pz upperPiece - depth upperPiece / 2) +
             min (pz lowerPiece + depth lowerPiece / 2) (pz upperPiece + depth upperPiece / 2)) / 2;
          overlapArea = overlapX lowerPiece upperPiece * overlapZ lowerPiece upperPiece
      in \<lparr>cx = overlapCenterX, cy = py lowerPiece + height lowerPiece, cz = overlapCenterZ,
          area = overlapArea, upperPieceId = pid upperPiece, lowerPieceId = pid lowerPiece,
          suggestedConnection = suggestConnection overlapArea upperPiece\<rparr>)"

definition freshNode :: "piece \<Rightarrow> node" where
  "freshNode p = \<lparr>npiece = p, supporting = [], supportedBy = [], connections = [],
                   totalLoad = 0, stressLevel = Fin 0\<rparr>"

text \<open>The first loop of \<open>analyzeSupportStructure\<close>: one fresh node per piece.\<close>

definition initNodes :: "piece list \<Rightarrow> supportMap" where
  "initNodes pieces = foldl (\<lambda>sm p. sm_put (pid p) (freshNode p) sm) [] pieces"

text \<open>The body of the inner loop, for one pair (upper, lower).\<close>

definition addSupport :: "supportMap \<Rightarrow> piece \<times> piece \<Rightarrow> supportMap" where
  "addSupport sm ul =
     (case ul of (upperPiece, lowerPiece) \<Rightarrow>
        if pid upperPiece = pid lowerPiece then sm
        else if isSupporting lowerPiece upperPiece then
          sm_modify (pid lowerPiece)
            (\<lambda>n. n\<lparr>connections := connections n @ [calculateConnectionPoint lowerPiece upperPiece]\<rparr>)
            (sm_modify (pid upperPiece)
               (\<lambda>n. n\<lparr>supportedBy := supportedBy n @ [pid lowerPiece]\<rparr>)
               (sm_modify (pid lowerPiece)
                  (\<lambda>n. n\<lparr>supporting := supporting n @ [pid upperPiece]\<rparr>) sm))
        else sm)"

text \<open>
  The two nested \<open>forEach\<close> loops: the upper piece runs in the outer loop, the lower piece
  in the inner one, which is the order of \<open>List.product\<close>.
\<close>

definition buildGraph :: "piece list \<Rightarrow> supportMap" where
  "buildGraph pieces = foldl addSupport (initNodes pieces) (List.product pieces pieces)"

subsection \<open>Load distribution\<close>

text \<open>
  \<open>node.supporting.reduce(...)\<close>: the sum of the loads stored so far for the supported
  pieces. A supported id that is not a key of the map makes the source throw a TypeError
  (\<open>None\<close>). \<open>totalLoad || 0\<close> is the identity on finite numbers.
\<close>

fun supportedWeight :: "supportMap \<Rightarrow> string list \<Rightarrow> real \<Rightarrow> real option" where
  "supportedWeight sm [] tot = Some tot"
| "supportedWeight sm (supportedId # ids) tot =
     (case map_of sm supportedId of
        None \<Rightarrow> None
      | Some n \<Rightarrow> supportedWeight sm ids (tot + totalLoad n))"

text \<open>The assignments to \<open>node.totalLoad\<close> and \<open>node.stressLevel\<close> for one node.\<close>

definition loadNode :: "node \<Rightarrow> real \<Rightarrow> node" where
  "loadNode n supported =
     (let pieceWeight = calculatePieceWeight (npiece n);
          load = pieceWeight + supported;
          mat = materialStrength (material (npiece n));
          contactArea = width (npiece n) * depth (npiece n);
          maxCapacity = baseCapacity mat * contactArea
      in n\<lparr>totalLoad := load, stressLevel := Math_min1 (js_div load maxCapacity)\<rparr>)"

text \<open>
  The \<open>while\<close> loop over the processing queue, with the set of processed ids. Looking up
  an id that is not a key throws (\<open>None\<close>).
\<close>

function loadLoop :: "supportMap \<Rightarrow> string list \<Rightarrow> string list \<Rightarrow> supportMap option" where
  "loadLoop sm [] processed = Some sm"
| "loadLoop sm (pieceId # queue) processed =
     (if pieceId \<in> set processed then loadLoop sm queue processed
      else case map_of sm pieceId of
        None \<Rightarrow> None
      | Some n \<Rightarrow>
         (case supportedWeight sm (supporting n) 0 of
            None \<Rightarrow> None
          | Some supported \<Rightarrow>
              loadLoop (sm_put pieceId (loadNode n supported) sm)
                (queue @ filter (\<lambda>supportId. supportId \<notin> set (pieceId # processed)) (supportedBy n))
                (pieceId # processed)))"
  by pat_completeness auto

lemma map_fst_sm_put:
  "map fst (sm_put k v sm) = (if k \<in> fst ` set sm then map fst sm else map fst sm @ [k])"
  by (induction sm) force+

lemma keys_sm_put: "fst ` set (sm_put k v sm) = insert k (fst ` set sm)"
proof -
  have "set (map fst (sm_put k v sm)) = insert k (set (map fst sm))"
    unfolding map_fst_sm_put by auto
  then show ?thesis by simp
qed

lemma map_of_keys: "map_of sm k = Some v \<Longrightarrow> k \<in> fst ` set sm"
  by (induction sm) (auto split: if_splits)

termination loadLoop
proof (relation "measures [\<lambda>(sm, q, pr). card (fst ` set sm - set pr),
                           \<lambda>(sm, q, pr). length q]", goal_cases)
  case 1
  show ?case by simp
next
  case (2 sm pieceId queue processed)
  then show ?case by simp
next
  case (3 sm pieceId queue processed n supported)
  from 3(2) have k: "pieceId \<in> fst ` set sm" by (rule map_of_keys)
  have "fst ` set sm - set (pieceId # processed) \<subset> fst ` set sm - set processed"
    using k 3(1) by auto
  then have "card (fst ` set sm - set (pieceId # processed))
             < card (fst ` set sm - set processed)"
    by (intro psubset_card_mono) auto
  then show ?case using k by (simp add: keys_sm_put insert_absorb)
qed

text \<open>
  \<open>calculateLoadDistribution\<close>: the queue is seeded with the ids of the nodes that support
  nothing, in the order of \<open>Object.values\<close>.
\<close>

definition topLevel :: "supportMap \<Rightarrow> string list" where
  "topLevel sm = map (\<lambda>kn. pid (npiece (snd kn))) (filter (\<lambda>kn. supporting (snd kn) = []) sm)"

definition calculateLoadDistribution :: "supportMap \<Rightarrow> supportMap option" where
  "calculateLoadDistribution sm = loadLoop sm (topLevel sm) []"

definition analyzeSupportStructure :: "piece list \<Rightarrow> supportMap option" where
  "analyzeSupportStructure pieces = calculateLoadDistribution (buildGraph pieces)"

subsection \<open>Cat weight test\<close>

text \<open>\<open>String.prototype.includes\<close>.\<close>

fun startsWith :: "string \<Rightarrow> string \<Rightarrow> bool" where
  "startsWith s [] = True"
| "startsWith [] (c # cs) = False"
| "startsWith (d # ds) (c # cs) = (d = c \<and> startsWith ds cs)"

fun str_includes :: "string \<Rightarrow> string \<Rightarrow> bool" where
  "str_includes [] sub = (sub = [])"
| "str_includes (d # ds) sub = (startsWith (d # ds) sub \<or> str_includes ds sub)"

text \<open>
  \<open>Math.max(...catWeights)\<close>; of an empty list it is minus infinity, here \<open>None\<close>.
\<close>

definition maxOfWeights :: "real list \<Rightarrow> real option" where
  "maxOfWeights ws = (case ws of [] \<Rightarrow> None | w # rest \<Rightarrow> Some (foldl max w rest))"

record catSpot =
  spotName :: string
  currentLoad :: real
  capacity :: real
  canHoldCat :: bool
  maxCatWeight :: real

record weakPoint =
  pieceId :: string
  pieceName :: string
  currentCapacity :: real
  required :: real

text \<open>
  The result object of \<open>testCatWeights\<close>. The list \<open>recommendations\<close> is derived from the
  stress levels and from \<open>passed\<close> and feeds nothing back; it is left out, as is the text
  of \<open>issue\<close>.
\<close>

record results =
  passed :: bool
  totalCapacity :: real
  weakPoints :: "weakPoint list"
  safetyFactor :: real
  catDistribution :: "(string \<times> catSpot) list"

definition isRestingSpot :: "piece \<Rightarrow> bool" where
  "isRestingSpot p =
     (case variantId p of
        None \<Rightarrow> False
      | Some v \<Rightarrow> str_includes v ''platform'' \<or> str_includes v ''perch'' \<or> str_includes v ''house'')"

text \<open>
  The body of \<open>restingSpots.forEach\<close> for one spot whose node was found. With a maximal
  cat weight of minus infinity the sum \<open>totalLoadWithCat\<close> is minus infinity: it is less
  than every capacity and greater than none.
\<close>

definition testSpot :: "node \<Rightarrow> real option \<Rightarrow> piece \<Rightarrow> results \<Rightarrow> results" where
  "testSpot n maxSingleCat spot r =
     (let mat = materialStrength (material spot);
          contactArea = width spot * depth spot;
          spotCapacity = baseCapacity mat * contactArea;
          r1 = r\<lparr>catDistribution :=
                  sm_put (pid spot)
                    \<lparr>spotName = pname spot, currentLoad = totalLoad n, capacity = spotCapacity,
                     canHoldCat =
                       (case maxSingleCat of
                          None \<Rightarrow> True
                        | Some m \<Rightarrow> totalLoad n + m < spotCapacity / safetyFactor r),
                     maxCatWeight = max 0 (spotCapacity / safetyFactor r - totalLoad n)\<rparr>
                    (catDistribution r)\<rparr>;
          r2 = (case maxSingleCat of
                  None \<Rightarrow> r1
                | Some m \<Rightarrow>
                    if totalLoad n + m > spotCapacity / safetyFactor r then
                      r1\<lparr>passed := False,
                         weakPoints := weakPoints r1 @
                           [\<lparr>pieceId = pid spot, pieceName = pname spot,
                             currentCapacity =
                               Math_round (spotCapacity / safetyFactor r - totalLoad n),
                             required = m\<rparr>]\<rparr>
                    else r1)
      in r2\<lparr>totalCapacity := totalCapacity r2 + spotCapacity\<rparr>)"

text \<open>
  The loop over the resting spots. \<open>supportMap[spot.id]\<close> of an id that is not a key is
  \<open>undefined\<close>, and reading its \<open>totalLoad\<close> throws (\<open>None\<close>).
\<close>

fun testSpots :: "supportMap \<Rightarrow> real option \<Rightarrow> piece list \<Rightarrow> results \<Rightarrow> results option" where
  "testSpots sm maxSingleCat [] r = Some r"
| "testSpots sm maxSingleCat (spot # rest) r =
     (case map_of sm (pid spot) of
        None \<Rightarrow> None
      | Some n \<Rightarrow> testSpots sm maxSingleCat rest (testSpot n maxSingleCat spot r))"

definition testCatWeights :: "piece list \<Rightarrow> real list \<Rightarrow> supportMap \<Rightarrow> results option" where
  "testCatWeights pieces catWeights sm =
     testSpots sm (maxOfWeights catWeights) (filter isRestingSpot pieces)
       \<lparr>passed = True, totalCapacity = 0, weakPoints = [], safetyFactor = 2,
        catDistribution = []\<rparr>"

text \<open>\<open>generateStressReport\<close>, as far as the support map and the test results go.\<close>

definition generateStressReport :: "piece list \<Rightarrow> real list \<Rightarrow> (supportMap \<times> results) option" where
  "generateStressReport pieces catWeights =
     (case analyzeSupportStructure pieces of
        None \<Rightarrow> None
      | Some sm \<Rightarrow>
          (case testCatWeights pieces catWeights sm of
             None \<Rightarrow> None
           | Some r \<Rightarrow> Some (sm, r)))"

section \<open>Example designs\<close>

text \<open>A solid box-shaped piece without a variant tag; the examples below start from it.\<close>

definition box :: "string \<Rightarrow> string \<Rightarrow> real \<Rightarrow> real \<Rightarrow> real \<Rightarrow> real \<Rightarrow> real \<Rightarrow> real \<Rightarrow> piece" where
  "box i m x y z w h d =
     \<lparr>pid = i, pname = i, material = m, shape = ''box'', hollow = False, variantId = None,
      px = x, py = y, pz = z, width = w, height = h, depth = d\<rparr>"

text \<open>A hollow tunnel half an inch wide and high, two feet long.\<close>

definition thinTube :: piece where
  "thinTube = (box ''tube'' ''wood'' 0 0 0 (1 / 2) (1 / 2) 24)\<lparr>hollow := True, shape := ''tunnel''\<rparr>"

text \<open>A solid cylinder of diameter 4 and height 4, with a depth of 40 on record.\<close>

definition longCylinder :: piece where
  "longCylinder = (box ''cyl'' ''wood'' 0 0 0 4 4 40)\<lparr>shape := ''cylinder''\<rparr>"

definition smallBox :: piece where
  "smallBox = box ''cube'' ''wood'' 0 0 0 2 2 2"

text \<open>The cylinder house of the catalogue (hollow, 12 by 12 by 12) and a solid post.\<close>

definition cylinderHouse :: piece where
  "cylinderHouse = (box ''house'' ''wood'' 0 0 0 12 12 12)\<lparr>hollow := True, shape := ''cylinder''\<rparr>"

definition roundPost :: piece where
  "roundPost = (box ''post'' ''sisal'' 0 0 0 4 24 4)\<lparr>shape := ''cylinder''\<rparr>"

text \<open>Two wooden blocks of 25 lb and 5 lb.\<close>

definition heavyBlock :: piece where
  "heavyBlock = box ''heavy'' ''wood'' 0 0 0 10 10 10"

definition lightBlock :: piece where
  "lightBlock = box ''light'' ''wood'' 0 0 0 10 2 10"

text \<open>The two stacked boxes of the specification's scenario.\<close>

definition blockA :: piece where
  "blockA = box ''A'' ''wood'' 0 0 0 12 1 12"

definition blockB :: piece where
  "blockB = box ''B'' ''wood'' 0 1 0 12 1 12"

definition stack :: "piece list" where
  "stack = [blockA, blockB]"

text \<open>
  A base plate carrying a toy on its left half and a post on its right half; the post
  carries a platform.
\<close>

definition tree :: "piece list" where
  "tree = [box ''base'' ''wood'' 0 0 0 24 2 24,
           box ''toy'' ''wood'' (- 8) 2 0 4 4 4,
           box ''post'' ''wood'' 8 2 0 4 20 4,
           box ''top'' ''wood'' 8 22 0 12 1 12]"

text \<open>A fabric platform of one inch each way: its capacity is 30, its own weight rounds to 0.\<close>

definition tinyPlatform :: piece where
  "tinyPlatform = (box ''pad'' ''fabric'' 0 0 0 1 1 1)\<lparr>variantId := Some ''platform-small''\<rparr>"

text \<open>A small cushion perch under a wooden slab of 80 lb.\<close>

definition crushedPerch :: "piece list" where
  "crushedPerch = [(box ''perch'' ''cushion'' 0 0 0 2 1 2)\<lparr>variantId := Some ''perch-round''\<rparr>,
                   box ''slab'' ''wood'' 0 1 0 40 2 40]"

text \<open>The basic house of the catalogue: hollow, 14 by 12 by 14, in fabric.\<close>

definition basicHouse :: piece where
  "basicHouse = (box ''house'' ''fabric'' 0 0 0 14 12 14)\<lparr>hollow := True\<rparr>"

text \<open>
  A third box beside \<open>blockB\<close>, at the height of the top of \<open>blockA\<close> but reaching only
  half an inch over its edge.
\<close>

definition sideC :: piece where
  "sideC = box ''C'' ''wood'' (23 / 2) 1 0 12 1 12"

definition stackAndSide :: "piece list" where
  "stackAndSide = [blockA, blockB, sideC]"

text \<open>The upper box of the stack under the id of the lower one.\<close>

definition twinB :: piece where
  "twinB = blockB\<lparr>pid := ''A''\<rparr>"


lemmas weight_defs = calculatePieceWeight_def pieceVolume_def outerVolume_def innerVolume_def
  wallThickness_def materialStrength_def wood_def fabric_def sisal_def carpet_def cushion_def
  Math_round_def Math_PI_def

section \<open>Auxiliary notions for the proofs about the support graph\<close>

text \<open>
  The pairs of the nested loops that add an edge out of, respectively into, the node with
  key \<open>k\<close>, and the node that results from a fresh one after a list of pairs.
\<close>

definition edgeOf :: "string \<Rightarrow> piece \<times> piece \<Rightarrow> bool" where
  "edgeOf k ul = (case ul of (u, l) \<Rightarrow> pid l = k \<and> pid u \<noteq> pid l \<and> isSupporting l u)"

definition edgeTo :: "string \<Rightarrow> piece \<times> piece \<Rightarrow> bool" where
  "edgeTo k ul = (case ul of (u, l) \<Rightarrow> pid u = k \<and> pid u \<noteq> pid l \<and> isSupporting l u)"

definition withEdges :: "string \<Rightarrow> (piece \<times> piece) list \<Rightarrow> node \<Rightarrow> node" where
  "withEdges k pairs n =
     n\<lparr>supporting := supporting n @ map (\<lambda>ul. pid (fst ul)) (filter (edgeOf k) pairs),
       supportedBy := supportedBy n @ map (\<lambda>ul. pid (snd ul)) (filter (edgeTo k) pairs),
       connections := connections n @
          map (\<lambda>ul. calculateConnectionPoint (snd ul) (fst ul)) (filter (edgeOf k) pairs)\<rparr>"

text \<open>
  Two maps are the same graph when they have the same keys in the same order and under
  each key nodes with the same piece, edges and contact records; a graph is closed when
  every id in an edge list is a key.
\<close>

definition sameNode :: "node \<Rightarrow> node \<Rightarrow> bool" where
  "sameNode n n' \<longleftrightarrow> npiece n' = npiece n \<and> supporting n' = supporting n \<and>
     supportedBy n' = supportedBy n \<and> connections n' = connections n"

definition sameGraph :: "supportMap \<Rightarrow> supportMap \<Rightarrow> bool" where
  "sameGraph sm sm' \<longleftrightarrow> map fst sm' = map fst sm \<and>
     (\<forall>k. rel_option sameNode (map_of sm k) (map_of sm' k))"

definition closedGraph :: "supportMap \<Rightarrow> bool" where
  "closedGraph sm \<longleftrightarrow>
     (\<forall>k n. map_of sm k = Some n \<longrightarrow>
        set (supporting n) \<subseteq> fst ` set sm \<and> set (supportedBy n) \<subseteq> fst ` set sm)"



section \<open>Weight estimator\<close>

lemma density_pos: "0 < density (materialStrength m)"
  by (simp add: materialStrength_def wood_def fabric_def sisal_def carpet_def cushion_def)

lemma Math_round_mono: "a \<le> b \<Longrightarrow> Math_round a \<le> Math_round b"
  by (simp add: Math_round_def floor_mono)

text \<open>
  Claim C2, as stated, fails for small positive dimensions. The volume of a hollow piece is
  the outer volume minus an inner volume floored at zero, but the floor is applied to the
  product of the three reduced dimensions: when two of them are negative their product is
  positive. For a hollow tunnel of 0.5 by 0.5 by 24 inches the function computes a volume
  of -16.5 cubic inches and a weight of -0.4 lb.
\<close>

theorem thinTube_negative_weight:
  "hollow thinTube \<and> 0 < width thinTube \<and> 0 < height thinTube \<and> 0 < depth thinTube \<and>
   pieceVolume thinTube = - 33 / 2 \<and> calculatePieceWeight thinTube = - 4 / 10"
  by (simp add: thinTube_def box_def weight_defs)

lemma abs_reduced: "(3 / 4 :: real) \<le> w \<Longrightarrow> \<bar>w - 2 * (3 / 4)\<bar> \<le> w"
  by simp

lemma shell_nonneg:
  fixes w h d :: real
  assumes "3 / 4 \<le> w" "3 / 4 \<le> h" "3 / 4 \<le> d"
  shows "0 \<le> w * h * d - max 0 ((w - 2 * (3 / 4)) * (h - 2 * (3 / 4)) * (d - 2 * (3 / 4)))"
proof -
  let ?a = "w - 2 * (3 / 4)" and ?b = "h - 2 * (3 / 4)" and ?c = "d - 2 * (3 / 4)"
  have a: "\<bar>?a\<bar> \<le> w" and b: "\<bar>?b\<bar> \<le> h" and c: "\<bar>?c\<bar> \<le> d"
    using assms by (simp_all only: abs_reduced)
  have "\<bar>?a\<bar> * \<bar>?b\<bar> \<le> w * h"
    by (rule mult_mono [OF a b]) (use assms in simp_all)
  then have "\<bar>?a\<bar> * \<bar>?b\<bar> * \<bar>?c\<bar> \<le> w * h * d"
    by (rule mult_mono [OF _ c]) (use assms in simp_all)
  moreover have "?a * ?b * ?c \<le> \<bar>?a\<bar> * \<bar>?b\<bar> * \<bar>?c\<bar>"
    using abs_ge_self [of "?a * ?b * ?c"] by (simp only: abs_mult)
  ultimately have "?a * ?b * ?c \<le> w * h * d"
    by (rule order_trans [rotated])
  moreover have "0 \<le> w * h * d" using assms by simp
  ultimately show ?thesis by simp
qed

lemma Math_round_nonneg: "0 \<le> v \<Longrightarrow> 0 \<le> Math_round v"
  by (simp add: Math_round_def)


text \<open>
  Claim C2, amended. For every hollow piece whose width, height and depth are each at
  least the wall thickness of 0.75 inch (the editor keeps every dimension at 1 inch or
  more), the returned weight is the volume times the density of the material, rounded to a
  tenth, where the volume is the outer volume minus the inner volume, each dimension of
  which is reduced by twice the wall thickness and which is floored at zero; that volume
  and the returned weight are not negative.
\<close>

theorem hollow_weight_nonneg:
  assumes "hollow p" "3 / 4 \<le> width p" "3 / 4 \<le> height p" "3 / 4 \<le> depth p"
  shows "calculatePieceWeight p =
           of_int \<lfloor>(width p * height p * depth p
                     - max 0 ((width p - 2 * (3 / 4)) * (height p - 2 * (3 / 4)) * (depth p - 2 * (3 / 4))))
                    * density (materialStrength (material p)) * 10 + 1 / 2\<rfloor> / 10
         \<and> 0 \<le> width p * height p * depth p
                 - max 0 ((width p - 2 * (3 / 4)) * (height p - 2 * (3 / 4)) * (depth p - 2 * (3 / 4)))
         \<and> 0 \<le> calculatePieceWeight p"
proof -
  let ?v = "width p * height p * depth p
            - max 0 ((width p - 2 * (3 / 4)) * (height p - 2 * (3 / 4)) * (depth p - 2 * (3 / 4)))"
  have v: "0 \<le> ?v" using assms(2,3,4) by (rule shell_nonneg)
  have e: "calculatePieceWeight p
           = Math_round (?v * density (materialStrength (material p)) * 10) / 10"
    using assms(1)
    by (simp add: calculatePieceWeight_def pieceVolume_def outerVolume_def innerVolume_def
          wallThickness_def)
  have "0 \<le> ?v * density (materialStrength (material p)) * 10"
    using v density_pos [of "material p"] by simp
  then have "0 \<le> Math_round (?v * density (materialStrength (material p)) * 10)"
    by (rule Math_round_nonneg)
  then have w: "0 \<le> calculatePieceWeight p" unfolding e by simp
  show ?thesis using e v w unfolding Math_round_def by blast
qed

theorem hollow_weight_nonneg_witness:
  "hollow basicHouse \<and> 3 / 4 \<le> width basicHouse \<and> 3 / 4 \<le> height basicHouse
   \<and> 3 / 4 \<le> depth basicHouse
   \<and> calculatePieceWeight basicHouse = 36 / 10 \<and> 0 \<le> calculatePieceWeight basicHouse"
proof -
  have h: "hollow basicHouse" "3 / 4 \<le> width basicHouse" "3 / 4 \<le> height basicHouse"
    "3 / 4 \<le> depth basicHouse"
    by (simp_all add: basicHouse_def box_def)
  have d: "density (materialStrength (material basicHouse)) = 5 / 1000"
    by (simp add: basicHouse_def box_def materialStrength_def fabric_def)
  have "calculatePieceWeight basicHouse = 36 / 10"
    using hollow_weight_nonneg [OF h] unfolding d by (simp add: basicHouse_def box_def)
  then show ?thesis using h hollow_weight_nonneg [OF h] by simp
qed

text \<open>
  Claim C5, as stated, fails twice. A hollow piece tagged as a cylinder is weighed as a
  rectangular shell, which can be heavier than the solid cylinder of the same dimensions;
  and the weights are rounded to a tenth of a pound, so that the hollow and the solid
  2-inch cube weigh the same although the wall is thinner than half of every dimension.
\<close>

theorem hollow_le_solid_counterexample:
  "calculatePieceWeight (longCylinder\<lparr>hollow := True\<rparr>)
     > calculatePieceWeight (longCylinder\<lparr>hollow := False\<rparr>)
   \<and> wallThickness < width smallBox / 2 \<and> wallThickness < height smallBox / 2
   \<and> wallThickness < depth smallBox / 2
   \<and> \<not> calculatePieceWeight (smallBox\<lparr>hollow := True\<rparr>)
         < calculatePieceWeight (smallBox\<lparr>hollow := False\<rparr>)"
  by (simp add: longCylinder_def smallBox_def box_def weight_defs power2_eq_square)

text \<open>
  Claim C5, amended. For every shape other than the cylinder, every material and all
  dimensions, the hollow piece weighs at most what the solid piece of the same outer
  dimensions weighs; and when the wall thickness is less than half of each dimension, the
  volume of the hollow piece, before the weight is rounded, is strictly less than the
  volume of the solid one.
\<close>

theorem hollow_le_solid:
  assumes "shape p \<noteq> ''cylinder''"
  shows "calculatePieceWeight (p\<lparr>hollow := True\<rparr>) \<le> calculatePieceWeight (p\<lparr>hollow := False\<rparr>)
    \<and> (wallThickness < width p / 2 \<and> wallThickness < height p / 2 \<and> wallThickness < depth p / 2
         \<longrightarrow> pieceVolume (p\<lparr>hollow := True\<rparr>) < pieceVolume (p\<lparr>hollow := False\<rparr>))"
proof
  have v: "pieceVolume (p\<lparr>hollow := True\<rparr>) \<le> pieceVolume (p\<lparr>hollow := False\<rparr>)"
    using assms by (simp add: pieceVolume_def outerVolume_def innerVolume_def)
  have "pieceVolume (p\<lparr>hollow := True\<rparr>) * density (materialStrength (material p)) * 10
        \<le> pieceVolume (p\<lparr>hollow := False\<rparr>) * density (materialStrength (material p)) * 10"
    using v density_pos [of "material p"] by (simp add: mult_right_mono)
  then show "calculatePieceWeight (p\<lparr>hollow := True\<rparr>)
             \<le> calculatePieceWeight (p\<lparr>hollow := False\<rparr>)"
    by (simp add: calculatePieceWeight_def Math_round_mono divide_right_mono)
  show "wallThickness < width p / 2 \<and> wallThickness < height p / 2 \<and> wallThickness < depth p / 2
         \<longrightarrow> pieceVolume (p\<lparr>hollow := True\<rparr>) < pieceVolume (p\<lparr>hollow := False\<rparr>)"
    using assms by (simp add: pieceVolume_def outerVolume_def innerVolume_def)
qed

theorem hollow_le_solid_witness:
  "shape heavyBlock \<noteq> ''cylinder''
   \<and> wallThickness < width heavyBlock / 2 \<and> wallThickness < height heavyBlock / 2
   \<and> wallThickness < depth heavyBlock / 2
   \<and> calculatePieceWeight (heavyBlock\<lparr>hollow := True\<rparr>)
       \<le> calculatePieceWeight (heavyBlock\<lparr>hollow := False\<rparr>)
   \<and> pieceVolume (heavyBlock\<lparr>hollow := True\<rparr>) < pieceVolume (heavyBlock\<lparr>hollow := False\<rparr>)"
proof -
  have s: "shape heavyBlock \<noteq> ''cylinder''"
    by (simp add: heavyBlock_def box_def)
  have t: "wallThickness < width heavyBlock / 2 \<and> wallThickness < height heavyBlock / 2
           \<and> wallThickness < depth heavyBlock / 2"
    by (simp add: heavyBlock_def box_def wallThickness_def)
  show ?thesis using s t hollow_le_solid [OF s] by blast
qed

text \<open>
  Claim C10. The hollow flag is tested before the shape. The weight returned for a hollow
  piece is computed from the rectangular outer volume minus the floored inner volume,
  whatever the shape tag, so that changing the tag does not change the weight; the weight
  of a solid piece is computed from the cylinder formula when the tag is \<open>cylinder\<close> and
  from width times height times depth otherwise.
\<close>

theorem hollow_precedes_shape:
  "(hollow p \<longrightarrow>
      calculatePieceWeight p =
        of_int \<lfloor>(width p * height p * depth p
                  - max 0 ((width p - 2 * (3 / 4)) * (height p - 2 * (3 / 4)) * (depth p - 2 * (3 / 4))))
                 * density (materialStrength (material p)) * 10 + 1 / 2\<rfloor> / 10
      \<and> calculatePieceWeight (p\<lparr>shape := s\<rparr>) = calculatePieceWeight p)
   \<and> (\<not> hollow p \<and> shape p = ''cylinder'' \<longrightarrow>
      calculatePieceWeight p =
        of_int \<lfloor>(884279719003555 / 281474976710656) * (width p / 2)\<^sup>2 * height p
                 * density (materialStrength (material p)) * 10 + 1 / 2\<rfloor> / 10)
   \<and> (\<not> hollow p \<and> shape p \<noteq> ''cylinder'' \<longrightarrow>
      calculatePieceWeight p =
        of_int \<lfloor>width p * height p * depth p
                 * density (materialStrength (material p)) * 10 + 1 / 2\<rfloor> / 10)"
  by (simp add: calculatePieceWeight_def pieceVolume_def outerVolume_def innerVolume_def
        wallThickness_def Math_round_def Math_PI_def)

theorem hollow_precedes_shape_witness:
  "hollow cylinderHouse \<and> shape cylinderHouse = ''cylinder''
   \<and> calculatePieceWeight cylinderHouse = 143 / 10
   \<and> calculatePieceWeight (cylinderHouse\<lparr>shape := ''box''\<rparr>) = 143 / 10
   \<and> \<not> hollow roundPost \<and> shape roundPost = ''cylinder''
   \<and> calculatePieceWeight roundPost = 45 / 10
   \<and> \<not> hollow heavyBlock \<and> shape heavyBlock \<noteq> ''cylinder''
   \<and> calculatePieceWeight heavyBlock = 25"
proof -
  have h: "hollow cylinderHouse" "\<not> hollow roundPost" "shape roundPost = ''cylinder''"
    "\<not> hollow heavyBlock" "shape heavyBlock \<noteq> ''cylinder''" "shape cylinderHouse = ''cylinder''"
    by (simp_all add: cylinderHouse_def roundPost_def heavyBlock_def box_def)
  have d: "density (materialStrength (material cylinderHouse)) = 25 / 1000"
    "density (materialStrength (material roundPost)) = 15 / 1000"
    "density (materialStrength (material heavyBlock)) = 25 / 1000"
    by (simp_all add: cylinderHouse_def roundPost_def heavyBlock_def box_def materialStrength_def
          wood_def sisal_def)
  have c: "calculatePieceWeight cylinderHouse = 143 / 10
           \<and> calculatePieceWeight (cylinderHouse\<lparr>shape := ''box''\<rparr>) = 143 / 10"
    using h(1) hollow_precedes_shape [of cylinderHouse "''box''"] unfolding d
    by (simp add: cylinderHouse_def box_def)
  have r: "calculatePieceWeight roundPost = 45 / 10"
    using h(2,3) hollow_precedes_shape [of roundPost] unfolding d
    by (simp add: roundPost_def box_def power2_eq_square)
  have b: "calculatePieceWeight heavyBlock = 25"
    using h(4,5) hollow_precedes_shape [of heavyBlock] unfolding d
    by (simp add: heavyBlock_def box_def)
  show ?thesis using h c r b by simp
qed

section \<open>Connection recommender\<close>

text \<open>
  Claim C9. The suggestion depends on the overlap area and on the own weight of the upper
  piece, as computed by \<open>calculatePieceWeight\<close>, in three tiers of area with one weight
  threshold each; the contact record built by \<open>calculateConnectionPoint\<close> passes the upper
  piece itself, not a node with its cumulative load.
\<close>

theorem suggestConnection_tiers:
  "(a < 4 \<and> calculatePieceWeight u > 20 \<longrightarrow> suggestConnection a u = metal_plate)
   \<and> (a < 4 \<and> calculatePieceWeight u \<le> 20 \<longrightarrow> suggestConnection a u = brackets_heavy)
   \<and> (4 \<le> a \<and> a < 16 \<and> calculatePieceWeight u > 15 \<longrightarrow> suggestConnection a u = brackets_heavy)
   \<and> (4 \<le> a \<and> a < 16 \<and> calculatePieceWeight u \<le> 15 \<longrightarrow> suggestConnection a u = brackets_light)
   \<and> (a \<ge> 16 \<and> calculatePieceWeight u > 10 \<longrightarrow> suggestConnection a u = glue_and_screws)
   \<and> (a \<ge> 16 \<and> calculatePieceWeight u \<le> 10 \<longrightarrow> suggestConnection a u = screws)
   \<and> suggestedConnection (calculateConnectionPoint l u)
       = suggestConnection (area (calculateConnectionPoint l u)) u"
  by (simp add: suggestConnection_def calculateConnectionPoint_def Let_def)

theorem suggestConnection_tiers_witness:
  "calculatePieceWeight heavyBlock = 25 \<and> calculatePieceWeight lightBlock = 5
   \<and> suggestConnection 3 heavyBlock = metal_plate
   \<and> suggestConnection 3 lightBlock = brackets_heavy
   \<and> suggestConnection 9 heavyBlock = brackets_heavy
   \<and> suggestConnection 9 lightBlock = brackets_light
   \<and> suggestConnection 16 heavyBlock = glue_and_screws
   \<and> suggestConnection 16 lightBlock = screws"
proof -
  have w: "calculatePieceWeight heavyBlock = 25" "calculatePieceWeight lightBlock = 5"
    by (simp_all add: heavyBlock_def lightBlock_def box_def weight_defs)
  show ?thesis
    using w suggestConnection_tiers [of 3 heavyBlock] suggestConnection_tiers [of 3 lightBlock]
      suggestConnection_tiers [of 9 heavyBlock] suggestConnection_tiers [of 9 lightBlock]
      suggestConnection_tiers [of 16 heavyBlock] suggestConnection_tiers [of 16 lightBlock]
    by simp
qed

section \<open>Support-graph builder\<close>

lemma map_of_sm_put: "map_of (sm_put k v sm) k' = (if k' = k then Some v else map_of sm k')"
  by (induction sm) auto

lemma map_of_sm_modify:
  "map_of (sm_modify k f sm) k' = (if k' = k then map_option f (map_of sm k) else map_of sm k')"
  by (induction sm) auto

lemma map_fst_sm_modify: "map fst (sm_modify k f sm) = map fst sm"
  by (induction sm) auto

lemma distinct_sm_put: "distinct (map fst sm) \<Longrightarrow> distinct (map fst (sm_put k v sm))"
  by (simp add: map_fst_sm_put)

lemma withEdges_Nil: "withEdges k [] n = n"
  by (simp add: withEdges_def)

lemma map_of_addSupport:
  "map_of (addSupport sm ul) k = map_option (withEdges k [ul]) (map_of sm k)"
  by (cases ul; cases "map_of sm k")
     (auto simp: addSupport_def map_of_sm_modify withEdges_def edgeOf_def edgeTo_def)

lemma withEdges_Cons: "withEdges k pairs (withEdges k [ul] n) = withEdges k (ul # pairs) n"
  by (simp add: withEdges_def)

lemma map_of_foldl_addSupport:
  "map_of (foldl addSupport sm pairs) k = map_option (withEdges k pairs) (map_of sm k)"
proof (induction pairs arbitrary: sm)
  case Nil
  show ?case by (simp add: withEdges_Nil option.map_ident cong: option.map_cong)
next
  case (Cons ul pairs)
  show ?case
    by (simp add: Cons.IH map_of_addSupport option.map_comp comp_def withEdges_Cons)
qed

lemma map_fst_addSupport: "map fst (addSupport sm ul) = map fst sm"
  by (cases ul) (simp add: addSupport_def map_fst_sm_modify)

lemma map_fst_foldl_addSupport: "map fst (foldl addSupport sm pairs) = map fst sm"
  by (induction pairs arbitrary: sm) (simp_all add: map_fst_addSupport)

lemma initNodes_snoc: "initNodes (ps @ [p]) = sm_put (pid p) (freshNode p) (initNodes ps)"
  by (simp add: initNodes_def)

lemma keys_initNodes: "fst ` set (initNodes ps) = pid ` set ps"
  by (induction ps rule: rev_induct) (auto simp: initNodes_snoc keys_sm_put initNodes_def)

lemma distinct_initNodes: "distinct (map fst (initNodes ps))"
  by (induction ps rule: rev_induct) (simp_all add: initNodes_snoc distinct_sm_put initNodes_def)

lemma map_of_initNodes:
  "map_of (initNodes ps) k = Some n \<Longrightarrow> \<exists>p \<in> set ps. pid p = k \<and> n = freshNode p"
  by (induction ps rule: rev_induct)
     (auto simp: initNodes_snoc map_of_sm_put initNodes_def split: if_splits)

lemma map_of_initNodes_distinct:
  "distinct (map pid ps) \<Longrightarrow> p \<in> set ps \<Longrightarrow> map_of (initNodes ps) (pid p) = Some (freshNode p)"
proof -
  assume d: "distinct (map pid ps)" and p: "p \<in> set ps"
  have "pid p \<in> fst ` set (initNodes ps)" using p by (simp add: keys_initNodes)
  then obtain n where n: "map_of (initNodes ps) (pid p) = Some n"
    by (metis map_of_eq_None_iff not_Some_eq)
  then obtain q where q: "q \<in> set ps" "pid q = pid p" "n = freshNode q"
    using map_of_initNodes by blast
  have "q = p" using d p q(1,2) by (meson distinct_map inj_onD)
  then show ?thesis using n q by simp
qed

lemma sameNode_refl: "sameNode n n"
  by (simp add: sameNode_def)

lemma sameGraph_refl: "sameGraph sm sm"
  by (simp add: sameGraph_def option.rel_refl sameNode_refl)

lemma sameGraph_trans: "sameGraph a b \<Longrightarrow> sameGraph b c \<Longrightarrow> sameGraph a c"
  unfolding sameGraph_def
proof (intro conjI allI)
  assume h: "map fst b = map fst a \<and> (\<forall>k. rel_option sameNode (map_of a k) (map_of b k))"
    "map fst c = map fst b \<and> (\<forall>k. rel_option sameNode (map_of b k) (map_of c k))"
  show "map fst c = map fst a" using h by simp
  fix k
  from h have "rel_option sameNode (map_of a k) (map_of b k)" "rel_option sameNode (map_of b k) (map_of c k)"
    by auto
  then show "rel_option sameNode (map_of a k) (map_of c k)"
    by (cases "map_of a k"; cases "map_of b k"; cases "map_of c k") (auto simp: sameNode_def)
qed

lemma sameGraph_keys: "sameGraph sm sm' \<Longrightarrow> fst ` set sm' = fst ` set sm"
proof -
  assume "sameGraph sm sm'"
  then have "set (map fst sm') = set (map fst sm)" by (simp add: sameGraph_def)
  then show ?thesis by simp
qed

lemma sameGraph_lookup:
  "sameGraph sm sm' \<Longrightarrow> map_of sm' k = Some n' \<Longrightarrow> \<exists>n. map_of sm k = Some n \<and> sameNode n n'"
proof -
  assume g: "sameGraph sm sm'" and l: "map_of sm' k = Some n'"
  from g have "rel_option sameNode (map_of sm k) (map_of sm' k)"
    by (simp add: sameGraph_def)
  with l show ?thesis by (cases "map_of sm k") auto
qed

lemma closedGraph_same: "closedGraph sm \<Longrightarrow> sameGraph sm sm' \<Longrightarrow> closedGraph sm'"
proof -
  assume c: "closedGraph sm" and g: "sameGraph sm sm'"
  have keys: "fst ` set sm' = fst ` set sm" using g by (rule sameGraph_keys)
  show "closedGraph sm'"
    unfolding closedGraph_def
  proof (intro allI impI)
    fix k n' assume "map_of sm' k = Some n'"
    then obtain n where n: "map_of sm k = Some n" "sameNode n n'"
      using sameGraph_lookup [OF g] by blast
    from c n(1) have "set (supporting n) \<subseteq> fst ` set sm \<and> set (supportedBy n) \<subseteq> fst ` set sm"
      unfolding closedGraph_def by blast
    then show "set (supporting n') \<subseteq> fst ` set sm' \<and> set (supportedBy n') \<subseteq> fst ` set sm'"
      using n(2) keys by (simp add: sameNode_def)
  qed
qed

lemma sameGraph_put:
  assumes "map_of sm k = Some n"
  shows "sameGraph sm (sm_put k (loadNode n w) sm)"
  unfolding sameGraph_def
proof (intro conjI allI)
  have "k \<in> fst ` set sm" using assms by (rule map_of_keys)
  then show "map fst (sm_put k (loadNode n w) sm) = map fst sm"
    by (simp add: map_fst_sm_put)
  fix k'
  show "rel_option sameNode (map_of sm k') (map_of (sm_put k (loadNode n w) sm) k')"
    using assms
    by (simp add: map_of_sm_put option.rel_refl sameNode_refl)
       (simp add: sameNode_def loadNode_def Let_def)
qed

lemma keys_lookup: "k \<in> fst ` set sm \<Longrightarrow> \<exists>n. map_of sm k = Some n"
  by (metis map_of_eq_None_iff not_Some_eq)

lemma supportedWeight_Some:
  "set ids \<subseteq> fst ` set sm \<Longrightarrow> \<exists>w. supportedWeight sm ids t = Some w"
proof (induction ids arbitrary: t)
  case Nil
  show ?case by simp
next
  case (Cons i ids)
  then obtain n where "map_of sm i = Some n" using keys_lookup by fastforce
  then show ?case using Cons by simp
qed

lemma loadLoop_total:
  "closedGraph sm \<Longrightarrow> set q \<subseteq> fst ` set sm \<Longrightarrow>
   \<exists>sm'. loadLoop sm q pr = Some sm' \<and> sameGraph sm sm'"
proof (induction sm q pr rule: loadLoop.induct)
  case (1 sm processed)
  show ?case by (simp add: sameGraph_refl)
next
  case (2 sm pieceId queue processed)
  show ?case
  proof (cases "pieceId \<in> set processed")
    case True
    then show ?thesis using 2 by simp
  next
    case False
    from 2(4) obtain n where n: "map_of sm pieceId = Some n"
      using keys_lookup by fastforce
    have cl: "set (supporting n) \<subseteq> fst ` set sm" "set (supportedBy n) \<subseteq> fst ` set sm"
      using 2(3) n unfolding closedGraph_def by blast+
    obtain w where w: "supportedWeight sm (supporting n) 0 = Some w"
      using supportedWeight_Some [OF cl(1)] by blast
    let ?sm1 = "sm_put pieceId (loadNode n w) sm"
    let ?q1 = "queue @ filter (\<lambda>supportId. supportId \<notin> set (pieceId # processed)) (supportedBy n)"
    have sg: "sameGraph sm ?sm1" using n by (rule sameGraph_put)
    have c1: "closedGraph ?sm1" using 2(3) sg by (rule closedGraph_same)
    have q1: "set ?q1 \<subseteq> fst ` set ?sm1"
      using 2(4) cl(2) sameGraph_keys [OF sg] by auto
    obtain sm' where r: "loadLoop ?sm1 ?q1 (pieceId # processed) = Some sm'" "sameGraph ?sm1 sm'"
      using "2.IH"(2) [OF False n w c1 q1] by blast
    have "loadLoop sm (pieceId # queue) processed = Some sm'"
      using False n w r(1) by simp
    then show ?thesis using sameGraph_trans [OF sg r(2)] by blast
  qed
qed

lemma map_of_buildGraph:
  "map_of (buildGraph ps) k = Some n \<Longrightarrow>
   \<exists>p \<in> set ps. pid p = k \<and> n = withEdges k (List.product ps ps) (freshNode p)"
  unfolding buildGraph_def map_of_foldl_addSupport
  using map_of_initNodes by fastforce

lemma map_of_buildGraph_distinct:
  "distinct (map pid ps) \<Longrightarrow> p \<in> set ps \<Longrightarrow>
   map_of (buildGraph ps) (pid p) = Some (withEdges (pid p) (List.product ps ps) (freshNode p))"
  unfolding buildGraph_def map_of_foldl_addSupport
  by (simp add: map_of_initNodes_distinct)

lemma keys_buildGraph: "fst ` set (buildGraph ps) = pid ` set ps"
proof -
  have "set (map fst (buildGraph ps)) = set (map fst (initNodes ps))"
    by (simp only: buildGraph_def map_fst_foldl_addSupport)
  then show ?thesis by (simp add: keys_initNodes)
qed

lemma distinct_buildGraph: "distinct (map fst (buildGraph ps))"
  by (simp only: buildGraph_def map_fst_foldl_addSupport distinct_initNodes)

lemma supporting_withEdges:
  "supporting (withEdges k pairs (freshNode p)) = map (\<lambda>ul. pid (fst ul)) (filter (edgeOf k) pairs)"
  by (simp add: withEdges_def freshNode_def)

lemma supportedBy_withEdges:
  "supportedBy (withEdges k pairs (freshNode p)) = map (\<lambda>ul. pid (snd ul)) (filter (edgeTo k) pairs)"
  by (simp add: withEdges_def freshNode_def)

lemma connections_withEdges:
  "connections (withEdges k pairs (freshNode p)) =
     map (\<lambda>ul. calculateConnectionPoint (snd ul) (fst ul)) (filter (edgeOf k) pairs)"
  by (simp add: withEdges_def freshNode_def)

lemma npiece_withEdges: "npiece (withEdges k pairs (freshNode p)) = p"
  by (simp add: withEdges_def freshNode_def)

lemma closed_buildGraph: "closedGraph (buildGraph ps)"
  unfolding closedGraph_def
proof (intro allI impI)
  fix k n assume "map_of (buildGraph ps) k = Some n"
  then obtain p where p: "n = withEdges k (List.product ps ps) (freshNode p)"
    using map_of_buildGraph by blast
  show "set (supporting n) \<subseteq> fst ` set (buildGraph ps) \<and>
        set (supportedBy n) \<subseteq> fst ` set (buildGraph ps)"
    unfolding p supporting_withEdges supportedBy_withEdges keys_buildGraph by auto
qed

lemma topLevel_buildGraph: "set (topLevel (buildGraph ps)) \<subseteq> fst ` set (buildGraph ps)"
proof
  fix i assume "i \<in> set (topLevel (buildGraph ps))"
  then obtain k n where kn: "(k, n) \<in> set (buildGraph ps)" "i = pid (npiece n)"
    by (auto simp: topLevel_def)
  then have "map_of (buildGraph ps) k = Some n"
    using distinct_buildGraph by simp
  then obtain p where "p \<in> set ps" "n = withEdges k (List.product ps ps) (freshNode p)"
    using map_of_buildGraph by blast
  then show "i \<in> fst ` set (buildGraph ps)"
    using kn(2) by (simp add: npiece_withEdges keys_buildGraph)
qed

lemma analyze_total:
  "\<exists>sm. analyzeSupportStructure ps = Some sm \<and> sameGraph (buildGraph ps) sm"
  unfolding analyzeSupportStructure_def calculateLoadDistribution_def
  using loadLoop_total [OF closed_buildGraph topLevel_buildGraph] .

lemma isSupporting_rule:
  "isSupporting lower upper \<longleftrightarrow>
     \<bar>(py lower + height lower) - py upper\<bar> \<le> 1
     \<and> calculateOverlap (px lower - width lower / 2) (px lower + width lower / 2)
                         (px upper - width upper / 2) (px upper + width upper / 2) \<ge> 2
     \<and> calculateOverlap (pz lower - depth lower / 2) (pz lower + depth lower / 2)
                         (pz upper - depth upper / 2) (pz upper + depth upper / 2) \<ge> 2"
  by (auto simp: isSupporting_def overlapX_def overlapZ_def Let_def)

lemma mem_edgesOf:
  "(i \<in> set (map (\<lambda>ul. pid (fst ul)) (filter (edgeOf k) (List.product ps ps)))) =
   (\<exists>u \<in> set ps. \<exists>l \<in> set ps. pid u = i \<and> pid l = k \<and> pid u \<noteq> pid l \<and> isSupporting l u)"
  by (force simp: edgeOf_def)

lemma mem_edgesTo:
  "(i \<in> set (map (\<lambda>ul. pid (snd ul)) (filter (edgeTo k) (List.product ps ps)))) =
   (\<exists>u \<in> set ps. \<exists>l \<in> set ps. pid l = i \<and> pid u = k \<and> pid u \<noteq> pid l \<and> isSupporting l u)"
  by (force simp: edgeTo_def)

lemma mem_connsOf:
  "(c \<in> set (map (\<lambda>ul. calculateConnectionPoint (snd ul) (fst ul)) (filter (edgeOf k) (List.product ps ps)))) =
   (\<exists>u \<in> set ps. \<exists>l \<in> set ps. c = calculateConnectionPoint l u \<and> pid l = k \<and> pid u \<noteq> pid l \<and> isSupporting l u)"
  by (force simp: edgeOf_def)

lemmas eval_defs = box_def analyzeSupportStructure_def calculateLoadDistribution_def topLevel_def
  buildGraph_def initNodes_def addSupport_def freshNode_def isSupporting_def overlapX_def overlapZ_def
  calculateOverlap_def calculateConnectionPoint_def suggestConnection_def weight_defs loadNode_def
  js_div_def Let_def generateStressReport_def testCatWeights_def testSpot_def isRestingSpot_def
  maxOfWeights_def

lemma stack_eval:
  "map_option (map (\<lambda>kn. (fst kn, supporting (snd kn), supportedBy (snd kn), totalLoad (snd kn))))
     (analyzeSupportStructure stack)
   = Some [(''A'', [''B''], [], 72 / 10), (''B'', [], [''A''], 36 / 10)]"
  by (simp add: stack_def blockA_def blockB_def eval_defs)

text \<open>
  Claim C8. In the map returned by \<open>analyzeSupportStructure\<close>, for any list of pieces, the
  node under key \<open>a\<close> lists \<open>b\<close> in \<open>supporting\<close> exactly when the node under key \<open>b\<close> lists
  \<open>a\<close> in \<open>supportedBy\<close>, and no node lists its own key in either; the analysis always
  returns a map. Unique ids are not needed for this.
\<close>

theorem support_symmetry:
  "\<exists>sm. analyzeSupportStructure pieces = Some sm \<and>
     (\<forall>a b na nb. map_of sm a = Some na \<and> map_of sm b = Some nb \<longrightarrow>
        ((b \<in> set (supporting na)) = (a \<in> set (supportedBy nb)))
        \<and> a \<notin> set (supporting na) \<and> a \<notin> set (supportedBy na))"
proof -
  obtain sm where sm: "analyzeSupportStructure pieces = Some sm" "sameGraph (buildGraph pieces) sm"
    using analyze_total by blast
  let ?pp = "List.product pieces pieces"
  have fields: "supporting n = map (\<lambda>ul. pid (fst ul)) (filter (edgeOf k) ?pp) \<and>
                supportedBy n = map (\<lambda>ul. pid (snd ul)) (filter (edgeTo k) ?pp)"
    if h: "map_of sm k = Some n" for k n
  proof -
    obtain n0 where n0: "map_of (buildGraph pieces) k = Some n0" "sameNode n0 n"
      using sameGraph_lookup [OF sm(2) h] by blast
    then obtain p where "n0 = withEdges k ?pp (freshNode p)"
      using map_of_buildGraph by blast
    then show ?thesis
      using n0(2) by (simp add: sameNode_def supporting_withEdges supportedBy_withEdges)
  qed
  have "((b \<in> set (supporting na)) = (a \<in> set (supportedBy nb)))
        \<and> a \<notin> set (supporting na) \<and> a \<notin> set (supportedBy na)"
    if "map_of sm a = Some na \<and> map_of sm b = Some nb" for a b na nb
    using fields [of a na] fields [of b nb] that
    by (auto simp: edgeOf_def edgeTo_def image_iff) 
  then show ?thesis using sm(1) by blast
qed

theorem support_symmetry_witness:
  "\<exists>sm na nb. analyzeSupportStructure stack = Some sm
     \<and> map_of sm ''A'' = Some na \<and> map_of sm ''B'' = Some nb
     \<and> ''B'' \<in> set (supporting na) \<and> ''A'' \<in> set (supportedBy nb)
     \<and> ''A'' \<notin> set (supporting na) \<and> ''A'' \<notin> set (supportedBy na)"
proof -
  obtain sm where sm: "analyzeSupportStructure stack = Some sm"
    and sym: "\<forall>a b na nb. map_of sm a = Some na \<and> map_of sm b = Some nb \<longrightarrow>
        ((b \<in> set (supporting na)) = (a \<in> set (supportedBy nb)))
        \<and> a \<notin> set (supporting na) \<and> a \<notin> set (supportedBy na)"
    using support_symmetry [of stack] by blast
  have e: "map (\<lambda>kn. (fst kn, supporting (snd kn), supportedBy (snd kn), totalLoad (snd kn))) sm
           = [(''A'', [''B''], [], 72 / 10), (''B'', [], [''A''], 36 / 10)]"
    using stack_eval sm by simp
  then obtain na nb where sm2: "sm = [(''A'', na), (''B'', nb)]" and na: "supporting na = [''B'']"
    by (auto simp: map_eq_Cons_conv)
  have l: "map_of sm ''A'' = Some na \<and> map_of sm ''B'' = Some nb"
    by (simp add: sm2)
  have "''B'' \<in> set (supporting na)" by (simp add: na)
  then show ?thesis using sm l sym by blast
qed

lemma isSupporting_overlap:
  "isSupporting lower upper \<longleftrightarrow>
     \<bar>(py lower + height lower) - py upper\<bar> \<le> 1
     \<and> max 0 (min (px lower + width lower / 2) (px upper + width upper / 2)
              - max (px lower - width lower / 2) (px upper - width upper / 2)) \<ge> 2
     \<and> max 0 (min (pz lower + depth lower / 2) (pz upper + depth upper / 2)
              - max (pz lower - depth lower / 2) (pz upper - depth upper / 2)) \<ge> 2"
  unfolding isSupporting_rule calculateOverlap_def by (rule refl)

text \<open>
  Claim C7, as stated for every pair of distinct pieces, fails when two pieces share an
  id: the pair is skipped by the comparison of the ids. The two boxes \<open>blockA\<close> and
  \<open>twinB\<close> are different pieces, the top of the first is the bottom of the second and
  their extents overlap by 12 inches in X and in Z, and no edge and no contact record is
  stored.
\<close>

theorem duplicate_id_no_edge:
  "blockA \<noteq> twinB \<and> blockA \<in> set [blockA, twinB] \<and> twinB \<in> set [blockA, twinB]
   \<and> \<bar>(py blockA + height blockA) - py twinB\<bar> \<le> 1
   \<and> max 0 (min (px blockA + width blockA / 2) (px twinB + width twinB / 2)
            - max (px blockA - width blockA / 2) (px twinB - width twinB / 2)) \<ge> 2
   \<and> max 0 (min (pz blockA + depth blockA / 2) (pz twinB + depth twinB / 2)
            - max (pz blockA - depth blockA / 2) (pz twinB - depth twinB / 2)) \<ge> 2
   \<and> map_option (map (\<lambda>kn. (fst kn, supporting (snd kn), supportedBy (snd kn), connections (snd kn))))
        (analyzeSupportStructure [blockA, twinB])
      = Some [(''A'', [], [], [])]"
  by (simp add: twinB_def blockA_def blockB_def eval_defs)

text \<open>
  Claim C7, amended. For a list of pieces with unique ids and two different pieces \<open>lower\<close>
  and \<open>upper\<close> of it, the analysis returns a map in which the node of \<open>lower\<close> lists
  \<open>upper\<close> in \<open>supporting\<close> exactly when the top of \<open>lower\<close> is within one inch of the
  bottom of \<open>upper\<close> and the overlap of their X-extents and the overlap of their Z-extents,
  each the smaller upper end minus the larger lower end of the two intervals centre plus
  or minus half the size, floored at zero, are both at least two inches; the entry of
  \<open>lower\<close> in \<open>supportedBy\<close> of \<open>upper\<close> and the contact record in \<open>connections\<close> of
  \<open>lower\<close> are present in exactly the same case.
\<close>

theorem support_edge_rule:
  assumes "distinct (map pid pieces)" "lower \<in> set pieces" "upper \<in> set pieces" "lower \<noteq> upper"
  shows "\<exists>sm nl nu. analyzeSupportStructure pieces = Some sm
     \<and> map_of sm (pid lower) = Some nl \<and> map_of sm (pid upper) = Some nu
     \<and> (pid upper \<in> set (supporting nl)) =
         (\<bar>(py lower + height lower) - py upper\<bar> \<le> 1
          \<and> max 0 (min (px lower + width lower / 2) (px upper + width upper / 2)
                   - max (px lower - width lower / 2) (px upper - width upper / 2)) \<ge> 2
          \<and> max 0 (min (pz lower + depth lower / 2) (pz upper + depth upper / 2)
                   - max (pz lower - depth lower / 2) (pz upper - depth upper / 2)) \<ge> 2)
     \<and> (pid lower \<in> set (supportedBy nu)) = (pid upper \<in> set (supporting nl))
     \<and> (calculateConnectionPoint lower upper \<in> set (connections nl))
         = (pid upper \<in> set (supporting nl))"
proof -
  let ?pp = "List.product pieces pieces"
  obtain sm where sm: "analyzeSupportStructure pieces = Some sm" "sameGraph (buildGraph pieces) sm"
    using analyze_total by blast
  have inj: "inj_on pid (set pieces)" using assms(1) by (simp add: distinct_map)
  have ne: "pid lower \<noteq> pid upper" using inj assms(2,3,4) by (auto dest: inj_onD)
  have look: "\<exists>n. map_of sm (pid p) = Some n \<and> sameNode (withEdges (pid p) ?pp (freshNode p)) n"
    if p: "p \<in> set pieces" for p
  proof -
    have "rel_option sameNode (map_of (buildGraph pieces) (pid p)) (map_of sm (pid p))"
      using sm(2) by (simp add: sameGraph_def)
    then show ?thesis
      unfolding map_of_buildGraph_distinct [OF assms(1) p]
      by (cases "map_of sm (pid p)") auto
  qed
  obtain nl where nl: "map_of sm (pid lower) = Some nl"
      "sameNode (withEdges (pid lower) ?pp (freshNode lower)) nl"
    using look [OF assms(2)] by blast
  obtain nu where nu: "map_of sm (pid upper) = Some nu"
      "sameNode (withEdges (pid upper) ?pp (freshNode upper)) nu"
    using look [OF assms(3)] by blast
  have same: "u = upper \<and> l = lower"
    if "u \<in> set pieces" "l \<in> set pieces" "pid u = pid upper" "pid l = pid lower" for u l
    using that inj assms(2,3) by (auto dest: inj_onD)
  have sl: "supporting nl = map (\<lambda>ul. pid (fst ul)) (filter (edgeOf (pid lower)) ?pp)"
    and cl: "connections nl = map (\<lambda>ul. calculateConnectionPoint (snd ul) (fst ul))
                                 (filter (edgeOf (pid lower)) ?pp)"
    using nl(2) by (simp_all add: sameNode_def supporting_withEdges connections_withEdges)
  have su: "supportedBy nu = map (\<lambda>ul. pid (snd ul)) (filter (edgeTo (pid upper)) ?pp)"
    using nu(2) by (simp add: sameNode_def supportedBy_withEdges)
  have a: "(pid upper \<in> set (supporting nl)) = isSupporting lower upper"
    unfolding sl mem_edgesOf using ne assms(2,3) same by metis
  have b: "(pid lower \<in> set (supportedBy nu)) = isSupporting lower upper"
    unfolding su mem_edgesTo using ne assms(2,3) same by metis
  have cp: "u = upper \<and> l = lower"
    if "u \<in> set pieces" "l \<in> set pieces"
       "calculateConnectionPoint lower upper = calculateConnectionPoint l u" for u l
  proof -
    from that(3) have "pid u = pid upper \<and> pid l = pid lower"
      by (simp add: calculateConnectionPoint_def Let_def)
    then show ?thesis using same that(1,2) by blast
  qed
  have c: "(calculateConnectionPoint lower upper \<in> set (connections nl)) = isSupporting lower upper"
    unfolding cl mem_connsOf using ne assms(2,3) cp by metis
  show ?thesis
    using sm(1) nl(1) nu(1) a b c unfolding isSupporting_overlap by blast
qed

theorem support_edge_rule_witness:
  "distinct (map pid stackAndSide) \<and> blockA \<in> set stackAndSide \<and> blockB \<in> set stackAndSide
   \<and> sideC \<in> set stackAndSide \<and> blockA \<noteq> blockB \<and> blockA \<noteq> sideC
   \<and> \<bar>(py blockA + height blockA) - py sideC\<bar> \<le> 1
   \<and> (\<exists>sm nl nb nc. analyzeSupportStructure stackAndSide = Some sm
         \<and> map_of sm (pid blockA) = Some nl \<and> map_of sm (pid blockB) = Some nb
         \<and> map_of sm (pid sideC) = Some nc
         \<and> pid blockB \<in> set (supporting nl) \<and> pid blockA \<in> set (supportedBy nb)
         \<and> calculateConnectionPoint blockA blockB \<in> set (connections nl)
         \<and> pid sideC \<notin> set (supporting nl) \<and> pid blockA \<notin> set (supportedBy nc)
         \<and> calculateConnectionPoint blockA sideC \<notin> set (connections nl))"
proof -
  have h: "distinct (map pid stackAndSide)" "blockA \<in> set stackAndSide"
    "blockB \<in> set stackAndSide" "sideC \<in> set stackAndSide" "blockA \<noteq> blockB" "blockA \<noteq> sideC"
    by (simp_all add: stackAndSide_def blockA_def blockB_def sideC_def box_def)
  have up: "\<bar>(py blockA + height blockA) - py blockB\<bar> \<le> 1
          \<and> max 0 (min (px blockA + width blockA / 2) (px blockB + width blockB / 2)
                   - max (px blockA - width blockA / 2) (px blockB - width blockB / 2)) \<ge> 2
          \<and> max 0 (min (pz blockA + depth blockA / 2) (pz blockB + depth blockB / 2)
                   - max (pz blockA - depth blockA / 2) (pz blockB - depth blockB / 2)) \<ge> 2"
    by (simp add: blockA_def blockB_def box_def)
  have side: "\<bar>(py blockA + height blockA) - py sideC\<bar> \<le> 1"
    "\<not> max 0 (min (px blockA + width blockA / 2) (px sideC + width sideC / 2)
                   - max (px blockA - width blockA / 2) (px sideC - width sideC / 2)) \<ge> 2"
    by (simp_all add: blockA_def sideC_def box_def)
  obtain sm nl nb where 1: "analyzeSupportStructure stackAndSide = Some sm"
    "map_of sm (pid blockA) = Some nl" "map_of sm (pid blockB) = Some nb"
    "pid blockB \<in> set (supporting nl)" "pid blockA \<in> set (supportedBy nb)"
    "calculateConnectionPoint blockA blockB \<in> set (connections nl)"
    using up support_edge_rule [OF h(1,2,3,5)] by auto
  obtain sm' nl' nc where 2: "analyzeSupportStructure stackAndSide = Some sm'"
    "map_of sm' (pid blockA) = Some nl'" "map_of sm' (pid sideC) = Some nc"
    "pid sideC \<notin> set (supporting nl')" "pid blockA \<notin> set (supportedBy nc)"
    "calculateConnectionPoint blockA sideC \<notin> set (connections nl')"
    using side support_edge_rule [OF h(1,2,4,6)] by auto
  have "sm' = sm" "nl' = nl" using 1(1,2) 2(1,2) by simp_all
  then show ?thesis using h side(1) 1 2 by blast
qed

section \<open>Load propagation\<close>

text \<open>
  Claim C1. Every node's load should be its own weight plus the loads of the nodes it
  supports, in any acyclic graph. The queue is breadth-first from the top pieces, which is
  not a leaves-first order: in \<open>tree\<close> the base supports the toy and the post, the post
  supports the platform, and nothing else is an edge. The toy, a top piece, enqueues the
  base before the post has been processed, so the base is given 28.8 + 1.6 + 0 = 30.4 lb,
  while its own weight plus the final loads of the toy (1.6) and of the post (11.6) is 42.
\<close>

theorem tree_loads:
  "map_option (map (\<lambda>kn. (fst kn, supporting (snd kn), calculatePieceWeight (npiece (snd kn)),
                            totalLoad (snd kn))))
     (analyzeSupportStructure tree)
   = Some [(''base'', [''toy'', ''post''], 288 / 10, 304 / 10),
           (''toy'', [], 16 / 10, 16 / 10),
           (''post'', [''top''], 8, 116 / 10),
           (''top'', [], 36 / 10, 36 / 10)]"
  by (simp add: tree_def eval_defs)













section \<open>Point-load tester\<close>

text \<open>
  Claim C3. A candidate can hold the cat exactly when its load with the heaviest cat is
  less than half its capacity, and a candidate that cannot should get a weak point and
  make the test fail. The weak point is recorded when the load with the cat is greater
  than half the capacity: at equality neither holds. The fabric platform has a capacity of
  30 and a load of 0; with the default cat of 15 lb \<open>canHoldCat\<close> is false, no weak point
  is recorded and \<open>passed\<close> stays true.
\<close>

theorem boundary_no_weak_point:
  "map_option (\<lambda>sr. (passed (snd sr), weakPoints (snd sr),
                       map (\<lambda>kc. (fst kc, currentLoad (snd kc), capacity (snd kc), canHoldCat (snd kc)))
                         (catDistribution (snd sr))))
     (generateStressReport [tinyPlatform] [15])
   = Some (True, [], [(''pad'', 0, 30, False)])"
  by (simp add: tinyPlatform_def eval_defs)

text \<open>
  Claim C4. The \<open>currentCapacity\<close> of a weak point should be the headroom floored at zero
  and rounded. The source rounds the headroom without the floor that \<open>maxCatWeight\<close>
  applies one statement earlier: the cushion perch under the slab has a capacity of 80 and
  a load of 80, its \<open>maxCatWeight\<close> is 0 and the \<open>currentCapacity\<close> of its weak point is -40.
\<close>

theorem crushedPerch_negative_capacity:
  "map_option (\<lambda>sr. (passed (snd sr), weakPoints (snd sr),
                       map (\<lambda>kc. (fst kc, currentLoad (snd kc), capacity (snd kc), maxCatWeight (snd kc)))
                         (catDistribution (snd sr))))
     (generateStressReport crushedPerch [15])
   = Some (False,
           [\<lparr>pieceId = ''perch'', pieceName = ''perch'', currentCapacity = - 40, required = 15\<rparr>],
           [(''perch'', 80, 80, 0)])"
  by (simp add: crushedPerch_def eval_defs)

end
